theory Spec2Isabelle
  imports Complex_Main "HOL-Library.Word"
begin

section \<open>Data model of \<open>safe_subprocess.py\<close>\<close>

text \<open>
  Bytes read from the child's pipes are lists of 8-bit words; decoded text is a list of
  Unicode code points (a Python \<open>str\<close>). Python's numbers that may be floats
  (CPU ticks, times, percentages) are rationals; the integers are \<open>int\<close>.
\<close>

type_synonym byte = "8 word"
type_synonym bytes = "byte list"
type_synonym unicode = "nat list"
type_synonym environ = "(string \<times> string) list"

definition MAX_BYTES_PER_READ :: nat where
  "MAX_BYTES_PER_READ = 1024"

definition CREATE_NEW_PROCESS_GROUP :: nat where
  "CREATE_NEW_PROCESS_GROUP = 512"

text \<open>
  What the module finds on its host when it is imported: \<open>os.name\<close>, which
  attributes \<open>os\<close> and \<open>subprocess\<close> have, the values imported from
  \<open>env\<close> (\<open>SANDBOX_UID\<close>, \<open>SANDBOX_GID\<close>, \<open>ENV\<close>, a module that is
  not among the sources and is therefore a parameter), and the two constants
  \<open>SC_CLK_TCK\<close> and \<open>CPU_COUNT\<close>.
\<close>

datatype os_kind = Posix | Nt | OtherOs

record host =
  os_name :: os_kind
  has_getpgid :: bool
  has_create_new_process_group :: bool
  SANDBOX_UID :: "nat option"
  SANDBOX_GID :: "nat option"
  ENV :: environ
  SC_CLK_TCK :: int
  CPU_COUNT :: int

text \<open>The arguments of \<open>run\<close>.\<close>

record request =
  args :: "string list"
  timeout_seconds :: int
  max_output_size :: int
  env :: "environ option"
  shell :: bool
  cwd :: "string option"

text \<open>The keyword arguments \<open>popen_kw\<close> handed to \<open>subprocess.Popen\<close>.\<close>

datatype stdio = DEVNULL | PIPE

record popen_kw =
  kw_env :: environ
  kw_stdin :: stdio
  kw_stdout :: stdio
  kw_stderr :: stdio
  kw_bufsize :: nat
  kw_shell :: bool
  kw_cwd :: "string option"
  kw_user :: "nat option"
  kw_group :: "nat option"
  kw_start_new_session :: bool
  kw_creationflags :: nat

subsection \<open>What the operating system shows the call\<close>

text \<open>
  One entry of the process tree as \<open>get_process_cpu_mem\<close> reads it:
  the fields \<open>vals[13:17]\<close> of \<open>/proc/<pid>/stat\<close> and the \<open>VmPeak:\<close> line of
  \<open>/proc/<pid>/status\<close> (its number and the unit it ends with), or a read that
  raises because the process has gone.
\<close>

datatype mem_unit = Unit_kB | Unit_mB | Unit_gB | Unit_other

record proc_entry =
  stat_fields :: "int list"
  vm_peak_line :: "(int \<times> mem_unit) option"

datatype proc_read = Unreadable | Readable proc_entry

record snapshot =
  process_exists :: bool
  rss :: int
  all_processes :: "proc_read list"

text \<open>
  One tick of the polling loop: the process tree at the moment of sampling, the bytes
  each pipe has ready (a read returns at most \<open>MAX_BYTES_PER_READ\<close> of them; nothing
  ready and end of file are both the empty list, the code only tests truth), and what
  \<open>p.poll()\<close> returns.
\<close>

record tick =
  snap :: snapshot
  stdout_avail :: bytes
  stderr_avail :: bytes
  poll :: "int option"

datatype proc_stat = NoProcStat | ProcStatRaises | ProcStat "int list"

datatype read_ev = ReadData bytes | ReadRaises

datatype popen_failure = FileNotFoundError | PermissionError | SubprocessError

text \<open>
  Everything outside the program during one call: whether \<open>Popen\<close> raises or yields
  a child pid, the process group of the caller, the first line of \<open>/proc/stat\<close> at
  launch and at teardown, the observation of every tick, the reads the two reader
  threads of the \<open>nt\<close> path complete before the buffers are joined, and the clock.
\<close>

record world =
  popen_outcome :: "popen_failure + nat"
  caller_pgid :: nat
  proc_stat_start :: proc_stat
  proc_stat_end :: proc_stat
  tick_obs :: "nat \<Rightarrow> tick"
  thread_stdout :: "read_ev list"
  thread_stderr :: "read_ev list"
  start_time :: rat
  end_time :: rat

subsection \<open>Local variables and the result\<close>

text \<open>
  The local variables of \<open>run\<close> that the loops change. \<open>exit_code_var\<close> and
  \<open>cur_cpu_var\<close> are \<open>None\<close> while the name is unbound; a bound \<open>exit_code\<close>
  holds Python's \<open>None\<close> or an integer. \<open>iterations\<close> and \<open>sleeps\<close> are not
  variables of the source: they count loop bodies entered and calls of
  \<open>time.sleep(SLEEP_BETWEEN_READS)\<close>.
\<close>

record locals =
  process_cpu_var :: rat
  process_peak_memory_var :: int
  cur_cpu_var :: "rat option"
  stdout_saved_bytes :: "bytes list"
  stderr_saved_bytes :: "bytes list"
  stdout_bytes_read :: int
  stderr_bytes_read :: int
  exit_code_var :: "int option option"
  iterations :: nat
  sleeps :: nat

record result =
  cmd :: "string list"
  timeout :: bool
  exit_code :: int
  stdout :: unicode
  stderr :: unicode
  process_cpu_util :: rat
  process_cpu_time :: rat
  process_exec_time :: rat
  process_peak_memory :: int

text \<open>
  How a call can end without a result: an exception of \<open>Popen\<close>, an exception raised
  after the loop, or, not an exception at all, the death of the calling process by the
  \<open>SIGKILL\<close> the call itself sends.
\<close>

datatype error =
  PopenError popen_failure | UnboundLocalError | UnicodeDecodeError | ZeroDivisionError
  | KilledBySignal

datatype kill_action = Killpg nat | Kill nat

section \<open>The helper functions\<close>

text \<open>\<open>get_system_cpu\<close>: the sum of the first line of \<open>/proc/stat\<close>, 0 when it cannot be read.\<close>

definition get_system_cpu :: "host \<Rightarrow> proc_stat \<Rightarrow> int" where
  "get_system_cpu h ps =
     (if os_name h \<noteq> Posix then 0
      else case ps of
        NoProcStat \<Rightarrow> 0
      | ProcStatRaises \<Rightarrow> 0
      | ProcStat cpu_total \<Rightarrow> sum_list cpu_total)"

fun vm_peak_kb :: "(int \<times> mem_unit) option \<Rightarrow> int" where
  "vm_peak_kb None = 0"
| "vm_peak_kb (Some (v, Unit_kB)) = v"
| "vm_peak_kb (Some (v, Unit_mB)) = v * 1024"
| "vm_peak_kb (Some (v, Unit_gB)) = v * 1024 * 1024"
| "vm_peak_kb (Some (v, Unit_other)) = v"

text \<open>
  The loop over \<open>all_processes\<close>; \<open>None\<close> is an exception, which
  \<open>get_process_cpu_mem\<close> catches.
\<close>

fun sum_tree :: "proc_read list \<Rightarrow> rat \<times> int \<Rightarrow> (rat \<times> int) option" where
  "sum_tree [] acc = Some acc"
| "sum_tree (Unreadable # ps) acc = None"
| "sum_tree (Readable e # ps) (cpu, mem) =
     sum_tree ps
       (cpu + of_int (sum_list (stat_fields e)), mem + vm_peak_kb (vm_peak_line e))"

definition get_process_cpu_mem :: "host \<Rightarrow> snapshot \<Rightarrow> rat \<times> int" where
  "get_process_cpu_mem h sn =
     (if \<not> process_exists sn then (0, 0)
      else if os_name h \<noteq> Posix then (0, rss sn div 1024)
      else case sum_tree (all_processes sn) (0, 0) of
        None \<Rightarrow> (0, 0)
      | Some r \<Rightarrow> r)"

text \<open>Python's \<open>round(x, 2)\<close>, on the exact value: to the nearest hundredth, ties to even.\<close>

definition round2 :: "rat \<Rightarrow> rat" where
  "round2 x =
     (let y = x * 100; f = \<lfloor>y\<rfloor>; d = y - of_int f
      in of_int (if d < 1 / 2 then f
                 else if 1 / 2 < d then f + 1
                 else if even f then f else f + 1) / 100)"

section \<open>Decoding UTF-8\<close>

text \<open>
  \<open>bytes.decode("utf-8", errors=...)\<close> of the Python runtime. \<open>utf8_seq\<close> looks at
  the head byte and the bytes after it: a well-formed sequence gives its code point and length, an
  ill-formed one gives \<open>None\<close> and the number of bytes the error covers (the longest
  prefix that could still start a well-formed sequence, at least one byte). Overlong
  forms, surrogates and code points above U+10FFFF are ill-formed.
\<close>

definition is_continuation :: "nat \<Rightarrow> bool" where
  "is_continuation b = (128 \<le> b \<and> b \<le> 191)"

definition utf8_seq :: "nat \<Rightarrow> nat list \<Rightarrow> nat option \<times> nat" where
  "utf8_seq b0 bs =
     (if b0 < 128 then (Some b0, 1)
      else if b0 < 194 then (None, 1)
      else if b0 < 224 then
        (case bs of
           [] \<Rightarrow> (None, 1)
         | b1 # _ \<Rightarrow>
             if is_continuation b1 then (Some ((b0 - 192) * 64 + (b1 - 128)), 2)
             else (None, 1))
      else if b0 < 240 then
        (case bs of
           [] \<Rightarrow> (None, 1)
         | b1 # bs1 \<Rightarrow>
             if \<not> is_continuation b1 \<or> (b0 = 224 \<and> b1 < 160) \<or> (b0 = 237 \<and> 160 \<le> b1)
             then (None, 1)
             else (case bs1 of
                     [] \<Rightarrow> (None, 2)
                   | b2 # _ \<Rightarrow>
                       if is_continuation b2
                       then (Some ((b0 - 224) * 4096 + (b1 - 128) * 64 + (b2 - 128)), 3)
                       else (None, 2)))
      else if b0 < 245 then
        (case bs of
           [] \<Rightarrow> (None, 1)
         | b1 # bs1 \<Rightarrow>
             if \<not> is_continuation b1 \<or> (b0 = 240 \<and> b1 < 144) \<or> (b0 = 244 \<and> 144 \<le> b1)
             then (None, 1)
             else (case bs1 of
                     [] \<Rightarrow> (None, 2)
                   | b2 # bs2 \<Rightarrow>
                       if \<not> is_continuation b2 then (None, 2)
                       else (case bs2 of
                               [] \<Rightarrow> (None, 3)
                             | b3 # _ \<Rightarrow>
                                 if is_continuation b3
                                 then (Some ((b0 - 240) * 262144 + (b1 - 128) * 4096
                                             + (b2 - 128) * 64 + (b3 - 128)), 4)
                                 else (None, 3))))
      else (None, 1))"

text \<open>
  The input cut into its sequences, left to right. \<open>utf8_seq\<close> consumes at least the
  head byte, so the rest is \<open>drop (n - 1)\<close> of the tail.
\<close>

fun utf8_scan :: "nat list \<Rightarrow> nat option list" where
  "utf8_scan [] = []"
| "utf8_scan (b # bs) =
     fst (utf8_seq b bs) # utf8_scan (drop (snd (utf8_seq b bs) - 1) bs)"

datatype errors = Strict | Ignore | Replace

definition decode_utf8 :: "errors \<Rightarrow> bytes \<Rightarrow> error + unicode" where
  "decode_utf8 mode bs =
     (let segs = utf8_scan (map unat bs)
      in case mode of
        Strict \<Rightarrow> if None \<in> set segs then Inl UnicodeDecodeError
                  else Inr (List.map_filter id segs)
      | Ignore \<Rightarrow> Inr (List.map_filter id segs)
      | Replace \<Rightarrow> Inr (map (case_option 65533 id) segs))"

section \<open>Launcher\<close>

text \<open>
  The keyword arguments as \<open>run\<close> builds them. \<open>shell\<close> is the constant
  \<open>False\<close>: the parameter of the same name is never read.
\<close>

definition make_popen_kw :: "host \<Rightarrow> request \<Rightarrow> popen_kw" where
  "make_popen_kw h req =
     (let kw = \<lparr>kw_env = (case env req of None \<Rightarrow> ENV h | Some e \<Rightarrow> e),
                kw_stdin = DEVNULL, kw_stdout = PIPE, kw_stderr = PIPE,
                kw_bufsize = MAX_BYTES_PER_READ, kw_shell = False, kw_cwd = cwd req,
                kw_user = None, kw_group = None, kw_start_new_session = False,
                kw_creationflags = 0\<rparr>
      in if SANDBOX_UID h \<noteq> None
         then kw\<lparr>kw_user := SANDBOX_UID h, kw_group := SANDBOX_GID h,
                 kw_start_new_session := True\<rparr>
         else if os_name h = Nt \<and> has_create_new_process_group h
         then kw\<lparr>kw_creationflags := CREATE_NEW_PROCESS_GROUP\<rparr>
         else kw)"

text \<open>
  \<open>os.getpgid(p.pid)\<close> right after the launch. A child started with
  \<open>start_new_session\<close> has called \<open>setsid\<close> and leads a group of its own, whose
  id is its pid; any other child is still in the group it inherited from the caller.
\<close>

definition os_getpgid :: "world \<Rightarrow> popen_kw \<Rightarrow> nat \<Rightarrow> nat" where
  "os_getpgid w kw pid = (if kw_start_new_session kw then pid else caller_pgid w)"

definition get_process_group_id :: "host \<Rightarrow> world \<Rightarrow> request \<Rightarrow> nat \<Rightarrow> nat option" where
  "get_process_group_id h w req pid =
     (if has_getpgid h then Some (os_getpgid w (make_popen_kw h req) pid) else None)"

section \<open>Stream drainer, sampler and the polling loop\<close>

definition init_locals :: locals where
  "init_locals =
     \<lparr>process_cpu_var = 0, process_peak_memory_var = 0, cur_cpu_var = None,
      stdout_saved_bytes = [], stderr_saved_bytes = [],
      stdout_bytes_read = 0, stderr_bytes_read = 0,
      exit_code_var = None, iterations = 0, sleeps = 0\<rparr>"

text \<open>
  The \<open>try\<close> block that opens both loop bodies. \<open>get_process_cpu_mem\<close> catches its
  own exceptions, so the \<open>except\<close> branch is never taken. \<open>cur_mem or 0\<close> is written
  out.
\<close>

definition sample :: "host \<Rightarrow> tick \<Rightarrow> locals \<Rightarrow> locals" where
  "sample h t s =
     (case get_process_cpu_mem h (snap t) of
        (cur_cpu, cur_mem) \<Rightarrow>
          s\<lparr>cur_cpu_var := Some cur_cpu,
            process_peak_memory_var :=
              max (process_peak_memory_var s) (if cur_mem \<noteq> 0 then cur_mem else 0)\<rparr>)"

text \<open>The two bounded reads of a tick on the non-blocking path.\<close>

definition drain :: "int \<Rightarrow> tick \<Rightarrow> locals \<Rightarrow> locals" where
  "drain max_out t s =
     (let this_stdout_read = take MAX_BYTES_PER_READ (stdout_avail t);
          this_stderr_read = take MAX_BYTES_PER_READ (stderr_avail t);
          s1 = (if this_stdout_read \<noteq> [] \<and> stdout_bytes_read s < max_out
                then s\<lparr>stdout_saved_bytes := stdout_saved_bytes s @ [this_stdout_read],
                       stdout_bytes_read :=
                         stdout_bytes_read s + int (length this_stdout_read)\<rparr>
                else s)
      in if this_stderr_read \<noteq> [] \<and> stderr_bytes_read s1 < max_out
         then s1\<lparr>stderr_saved_bytes := stderr_saved_bytes s1 @ [this_stderr_read],
                 stderr_bytes_read := stderr_bytes_read s1 + int (length this_stderr_read)\<rparr>
         else s1)"

text \<open>
  \<open>for _ in range(max_iterations)\<close>, which both platform branches write with the same
  skeleton: the body, then \<open>exit_code = p.poll()\<close>, a \<open>break\<close> when it is not
  \<open>None\<close>, and the sleep otherwise. The first argument is the part of the body that
  differs, \<open>n\<close> the iterations left and \<open>i\<close> the index of the next tick.
\<close>

fun poll_loop ::
  "(tick \<Rightarrow> locals \<Rightarrow> locals) \<Rightarrow> (nat \<Rightarrow> tick) \<Rightarrow> nat \<Rightarrow> nat \<Rightarrow> locals \<Rightarrow> locals" where
  "poll_loop body obs 0 i s = s"
| "poll_loop body obs (Suc n) i s =
     (let s1 = body (obs i) s;
          s2 = s1\<lparr>exit_code_var := Some (poll (obs i)), iterations := Suc (iterations s1)\<rparr>
      in if poll (obs i) \<noteq> None then s2
         else poll_loop body obs n (Suc i) (s2\<lparr>sleeps := Suc (sleeps s2)\<rparr>))"

text \<open>
  \<open>read_stream\<close>, the body of a reader thread, over the reads it completes. A read
  that raises and an empty chunk end the loop; when the list of reads is used up the
  thread is still blocked in \<open>read\<close> and the buffers hold what they hold.
\<close>

fun read_stream :: "int \<Rightarrow> read_ev list \<Rightarrow> bytes list \<times> int \<Rightarrow> bytes list \<times> int" where
  "read_stream max_out [] (out_list, size_holder) = (out_list, size_holder)"
| "read_stream max_out (ev # evs) (out_list, size_holder) =
     (if size_holder < max_out then
        (case ev of
           ReadRaises \<Rightarrow> (out_list, size_holder)
         | ReadData avail \<Rightarrow>
             (let chunk = take MAX_BYTES_PER_READ avail
              in if chunk = [] then (out_list, size_holder)
                 else read_stream max_out evs
                        (out_list @ [chunk], size_holder + int (length chunk))))
      else (out_list, size_holder))"

text \<open>
  The body of the loop on the non-blocking path, before the poll: sample, then read.
  On the \<open>nt\<close> path the body is \<open>sample\<close> alone.
\<close>

definition posix_body :: "host \<Rightarrow> int \<Rightarrow> tick \<Rightarrow> locals \<Rightarrow> locals" where
  "posix_body h max_out t s = drain max_out t (sample h t s)"

text \<open>The platform branch of \<open>run\<close>: threads and a sampling loop, or one loop that also reads.\<close>

definition monitor :: "host \<Rightarrow> world \<Rightarrow> request \<Rightarrow> locals" where
  "monitor h w req =
     (let max_iterations = timeout_seconds req * 10
      in if os_name h = Nt then
           (let s = poll_loop (sample h) (tick_obs w) (nat max_iterations) 0 init_locals;
                t_out = read_stream (max_output_size req) (thread_stdout w) ([], 0);
                t_err = read_stream (max_output_size req) (thread_stderr w) ([], 0)
            in s\<lparr>stdout_saved_bytes := fst t_out, stdout_bytes_read := snd t_out,
                 stderr_saved_bytes := fst t_err, stderr_bytes_read := snd t_err\<rparr>)
         else poll_loop (posix_body h (max_output_size req))
                (tick_obs w) (nat max_iterations) 0 init_locals)"

section \<open>Reaper and result assembler\<close>

definition reaper :: "nat option \<Rightarrow> nat \<Rightarrow> kill_action" where
  "reaper process_group_id pid =
     (case process_group_id of Some pgid \<Rightarrow> Killpg pgid | None \<Rightarrow> Kill pid)"

text \<open>The signal a call of \<open>run\<close> sends; none when \<open>Popen\<close> raised.\<close>

definition run_kill :: "host \<Rightarrow> world \<Rightarrow> request \<Rightarrow> kill_action option" where
  "run_kill h w req =
     (case popen_outcome w of
        Inl e \<Rightarrow> None
      | Inr pid \<Rightarrow> Some (reaper (get_process_group_id h w req pid) pid))"

text \<open>
  The caller is a member of its own process group. When \<open>os.killpg\<close> is given that
  group, \<open>SIGKILL\<close> reaches the process that runs \<open>run\<close>, and the call ends at the
  kill: the \<open>except\<close> clause catches no signal.
\<close>

definition kills_own_group :: "host \<Rightarrow> world \<Rightarrow> request \<Rightarrow> bool" where
  "kills_own_group h w req = (run_kill h w req = Some (Killpg (caller_pgid w)))"

text \<open>
  The code after the kill. Reading \<open>exit_code\<close> while it is unbound raises; so does
  the division by a zero \<open>SC_CLK_TCK\<close>.
\<close>

definition assemble :: "host \<Rightarrow> world \<Rightarrow> request \<Rightarrow> int \<Rightarrow> locals \<Rightarrow> error + result" where
  "assemble h w req system_cpu_start s =
     (case exit_code_var s of
        None \<Rightarrow> Inl UnboundLocalError
      | Some ec \<Rightarrow>
          (case decode_utf8 Ignore (concat (stdout_saved_bytes s)) of
             Inl e \<Rightarrow> Inl e
           | Inr out \<Rightarrow>
               (case decode_utf8 Ignore (concat (stderr_saved_bytes s)) of
                  Inl e \<Rightarrow> Inl e
                | Inr err \<Rightarrow>
                    (let system_cpu_end = get_system_cpu h (proc_stat_end w);
                         util = (if system_cpu_start \<noteq> system_cpu_end
                                 then process_cpu_var s
                                      / of_int (system_cpu_end - system_cpu_start)
                                      * 100 * of_int (CPU_COUNT h)
                                 else 0)
                     in if SC_CLK_TCK h = 0 then Inl ZeroDivisionError
                        else Inr \<lparr>cmd = args req,
                                  timeout = (ec = None),
                                  exit_code = (case ec of None \<Rightarrow> - 1 | Some c \<Rightarrow> c),
                                  stdout = out,
                                  stderr = err,
                                  process_cpu_util = round2 util,
                                  process_cpu_time =
                                    round2 (process_cpu_var s / of_int (SC_CLK_TCK h)),
                                  process_exec_time = round2 (end_time w - start_time w),
                                  process_peak_memory = process_peak_memory_var s\<rparr>))))"

text \<open>
  \<open>run\<close>: the launch, the loop, the kill, and the code after it when the caller is
  still alive.
\<close>

definition run :: "host \<Rightarrow> world \<Rightarrow> request \<Rightarrow> error + result" where
  "run h w req =
     (case popen_outcome w of
        Inl e \<Rightarrow> Inl (PopenError e)
      | Inr pid \<Rightarrow>
          if kills_own_group h w req then Inl KilledBySignal
          else assemble h w req (get_system_cpu h (proc_stat_start w)) (monitor h w req))"

text \<open>
  The memory figure of tick \<open>i\<close>, and the body either branch runs: names for the
  statements below.
\<close>

definition mem_sample :: "host \<Rightarrow> world \<Rightarrow> nat \<Rightarrow> int" where
  "mem_sample h w i = snd (get_process_cpu_mem h (snap (tick_obs w i)))"

definition cpu_sample :: "host \<Rightarrow> world \<Rightarrow> nat \<Rightarrow> rat" where
  "cpu_sample h w i = fst (get_process_cpu_mem h (snap (tick_obs w i)))"

definition loop_body :: "host \<Rightarrow> int \<Rightarrow> tick \<Rightarrow> locals \<Rightarrow> locals" where
  "loop_body h max_out = (if os_name h = Nt then sample h else posix_body h max_out)"

definition max_iterations :: "request \<Rightarrow> nat" where
  "max_iterations req = nat (timeout_seconds req * 10)"

text \<open>The state of an iteration after its poll, and after its sleep.\<close>

definition after_poll :: "(tick \<Rightarrow> locals \<Rightarrow> locals) \<Rightarrow> tick \<Rightarrow> locals \<Rightarrow> locals" where
  "after_poll body t s =
     (body t s)\<lparr>exit_code_var := Some (poll t), iterations := Suc (iterations (body t s))\<rparr>"

definition after_sleep :: "(tick \<Rightarrow> locals \<Rightarrow> locals) \<Rightarrow> tick \<Rightarrow> locals \<Rightarrow> locals" where
  "after_sleep body t s =
     (after_poll body t s)\<lparr>sleeps := Suc (sleeps (after_poll body t s))\<rparr>"

text \<open>
  A stream's buffer and counter agree, the counter is within one read of the cap, and
  no chunk is longer than one read.
\<close>

definition within_cap :: "int \<Rightarrow> bytes list \<Rightarrow> int \<Rightarrow> bool" where
  "within_cap max_out saved n \<longleftrightarrow>
     n = int (length (concat saved))
     \<and> n \<le> max_out + int MAX_BYTES_PER_READ
     \<and> list_all (\<lambda>chunk. length chunk \<le> MAX_BYTES_PER_READ) saved"

section \<open>Example hosts and calls\<close>

text \<open>
  A Linux host with no sandbox identity, the same host with one, and a Windows host;
  a child whose tree has used 250 ticks and 5120 kB when it is first sampled, writes
  the bytes \<open>68 FF 69\<close> to its standard output and exits with status 2 at the second
  tick; and a child that never exits.
\<close>

definition linux_host :: host where
  "linux_host =
     \<lparr>os_name = Posix, has_getpgid = True, has_create_new_process_group = False,
      SANDBOX_UID = None, SANDBOX_GID = None, ENV = [],
      SC_CLK_TCK = 100, CPU_COUNT = 4\<rparr>"

definition sandbox_host :: host where
  "sandbox_host = linux_host\<lparr>SANDBOX_UID := Some 1000, SANDBOX_GID := Some 1000\<rparr>"

definition windows_host :: host where
  "windows_host =
     \<lparr>os_name = Nt, has_getpgid = False, has_create_new_process_group = True,
      SANDBOX_UID = None, SANDBOX_GID = None, ENV = [],
      SC_CLK_TCK = 100, CPU_COUNT = 4\<rparr>"

definition busy_tree :: snapshot where
  "busy_tree =
     \<lparr>process_exists = True, rss = 4096000,
      all_processes =
        [Readable \<lparr>stat_fields = [150, 50, 30, 20], vm_peak_line = Some (2048, Unit_kB)\<rparr>,
         Readable \<lparr>stat_fields = [0, 0, 0, 0], vm_peak_line = Some (3, Unit_mB)\<rparr>]\<rparr>"

definition small_tree :: snapshot where
  "small_tree =
     \<lparr>process_exists = True, rss = 1024000,
      all_processes =
        [Readable \<lparr>stat_fields = [200, 60, 30, 20], vm_peak_line = Some (2048, Unit_kB)\<rparr>]\<rparr>"

definition first_tick :: tick where
  "first_tick =
     \<lparr>snap = busy_tree, stdout_avail = [104, 255, 105], stderr_avail = [], poll = None\<rparr>"

definition exit_tick :: tick where
  "exit_tick = \<lparr>snap = small_tree, stdout_avail = [], stderr_avail = [], poll = Some 2\<rparr>"

definition idle_tick :: tick where
  "idle_tick = \<lparr>snap = small_tree, stdout_avail = [], stderr_avail = [], poll = None\<rparr>"

definition exiting_world :: world where
  "exiting_world =
     \<lparr>popen_outcome = Inr 4242, caller_pgid = 77,
      proc_stat_start = ProcStat [1000, 0, 500, 9000],
      proc_stat_end = ProcStat [1100, 0, 600, 9300],
      tick_obs = (\<lambda>i. if i = 0 then first_tick else exit_tick),
      thread_stdout = [ReadData [104, 255, 105], ReadData []],
      thread_stderr = [ReadData []],
      start_time = 0, end_time = 1 / 4\<rparr>"

definition hanging_world :: world where
  "hanging_world = exiting_world\<lparr>tick_obs := (\<lambda>i. idle_tick)\<rparr>"

definition failing_world :: world where
  "failing_world = exiting_world\<lparr>popen_outcome := Inl FileNotFoundError\<rparr>"

definition a_request :: request where
  "a_request =
     \<lparr>args = [''prog''], timeout_seconds = 1, max_output_size = 2048,
      env = None, shell = False, cwd = None\<rparr>"

section \<open>Properties of the loop\<close>

subsection \<open>What a loop body leaves alone\<close>

lemma sample_frame [simp]:
  "exit_code_var (sample h t s) = exit_code_var s"
  "iterations (sample h t s) = iterations s"
  "sleeps (sample h t s) = sleeps s"
  "process_cpu_var (sample h t s) = process_cpu_var s"
  "stdout_saved_bytes (sample h t s) = stdout_saved_bytes s"
  "stderr_saved_bytes (sample h t s) = stderr_saved_bytes s"
  "stdout_bytes_read (sample h t s) = stdout_bytes_read s"
  "stderr_bytes_read (sample h t s) = stderr_bytes_read s"
  by (simp_all add: sample_def split: prod.split)

lemma sample_peak [simp]:
  "process_peak_memory_var (sample h t s) =
     max (process_peak_memory_var s) (snd (get_process_cpu_mem h (snap t)))"
  by (simp add: sample_def split: prod.split)

lemma drain_frame [simp]:
  "exit_code_var (drain m t s) = exit_code_var s"
  "iterations (drain m t s) = iterations s"
  "sleeps (drain m t s) = sleeps s"
  "process_cpu_var (drain m t s) = process_cpu_var s"
  "process_peak_memory_var (drain m t s) = process_peak_memory_var s"
  by (simp_all add: drain_def Let_def)

lemma loop_body_frame [simp]:
  "exit_code_var (loop_body h m t s) = exit_code_var s"
  "iterations (loop_body h m t s) = iterations s"
  "sleeps (loop_body h m t s) = sleeps s"
  "process_cpu_var (loop_body h m t s) = process_cpu_var s"
  by (simp_all add: loop_body_def posix_body_def)

lemma loop_body_peak [simp]:
  "process_peak_memory_var (loop_body h m t s) =
     max (process_peak_memory_var s) (snd (get_process_cpu_mem h (snap t)))"
  by (simp add: loop_body_def posix_body_def)

lemma monitor_loop:
  "exit_code_var (monitor h w req) =
     exit_code_var (poll_loop (loop_body h (max_output_size req)) (tick_obs w) (max_iterations req) 0 init_locals)"
  "iterations (monitor h w req) =
     iterations (poll_loop (loop_body h (max_output_size req)) (tick_obs w) (max_iterations req) 0 init_locals)"
  "sleeps (monitor h w req) =
     sleeps (poll_loop (loop_body h (max_output_size req)) (tick_obs w) (max_iterations req) 0 init_locals)"
  "process_cpu_var (monitor h w req) =
     process_cpu_var (poll_loop (loop_body h (max_output_size req)) (tick_obs w) (max_iterations req) 0 init_locals)"
  "process_peak_memory_var (monitor h w req) =
     process_peak_memory_var (poll_loop (loop_body h (max_output_size req)) (tick_obs w) (max_iterations req) 0 init_locals)"
  by (simp_all add: monitor_def loop_body_def max_iterations_def Let_def)

subsection \<open>One iteration at a time\<close>

lemma poll_loop_Suc:
  "poll_loop body obs (Suc n) i s =
     (if poll (obs i) \<noteq> None then after_poll body (obs i) s
      else poll_loop body obs n (Suc i) (after_sleep body (obs i) s))"
  by (simp add: Let_def after_poll_def after_sleep_def)

lemma after_poll_fields [simp]:
  "exit_code_var (after_poll (loop_body h m) t s) = Some (poll t)"
  "iterations (after_poll (loop_body h m) t s) = Suc (iterations s)"
  "sleeps (after_poll (loop_body h m) t s) = sleeps s"
  "process_cpu_var (after_poll (loop_body h m) t s) = process_cpu_var s"
  "process_peak_memory_var (after_poll (loop_body h m) t s) =
     max (process_peak_memory_var s) (snd (get_process_cpu_mem h (snap t)))"
  by (simp_all add: after_poll_def)

lemma after_sleep_fields [simp]:
  "exit_code_var (after_sleep (loop_body h m) t s) = Some (poll t)"
  "iterations (after_sleep (loop_body h m) t s) = Suc (iterations s)"
  "sleeps (after_sleep (loop_body h m) t s) = Suc (sleeps s)"
  "process_cpu_var (after_sleep (loop_body h m) t s) = process_cpu_var s"
  "process_peak_memory_var (after_sleep (loop_body h m) t s) =
     max (process_peak_memory_var s) (snd (get_process_cpu_mem h (snap t)))"
  by (simp_all add: after_sleep_def)

declare poll_loop.simps(2) [simp del]

lemma poll_loop_no_exit:
  "(\<And>j. j < n \<Longrightarrow> poll (obs (i + j)) = None) \<Longrightarrow>
   exit_code_var (poll_loop (loop_body h m) obs n i s) = (if n = 0 then exit_code_var s else Some None)
   \<and> iterations (poll_loop (loop_body h m) obs n i s) = iterations s + n
   \<and> sleeps (poll_loop (loop_body h m) obs n i s) = sleeps s + n"
proof (induction n arbitrary: i s)
  case 0
  then show ?case by simp
next
  case (Suc n)
  have h0: "poll (obs i) = None" using Suc.prems [of 0] by simp
  have hj: "\<And>j. j < n \<Longrightarrow> poll (obs (Suc i + j)) = None"
    using Suc.prems [of "Suc j" for j] by simp
  show ?case using Suc.IH [OF hj, of "after_sleep (loop_body h m) (obs i) s"] h0
    by (simp add: poll_loop_Suc)
qed

lemma poll_loop_exit:
  "k < n \<Longrightarrow> (\<And>j. j < k \<Longrightarrow> poll (obs (i + j)) = None) \<Longrightarrow> poll (obs (i + k)) = Some c \<Longrightarrow>
   exit_code_var (poll_loop (loop_body h m) obs n i s) = Some (Some c)
   \<and> iterations (poll_loop (loop_body h m) obs n i s) = iterations s + k + 1
   \<and> sleeps (poll_loop (loop_body h m) obs n i s) = sleeps s + k"
proof (induction n arbitrary: i s k)
  case 0
  then show ?case by simp
next
  case (Suc n)
  show ?case
  proof (cases k)
    case 0
    then show ?thesis using Suc.prems by (simp add: poll_loop_Suc)
  next
    case (Suc k')
    have h0: "poll (obs i) = None" using Suc.prems(2) [of 0] Suc by simp
    have hj: "\<And>j. j < k' \<Longrightarrow> poll (obs (Suc i + j)) = None"
      using Suc.prems(2) [of "Suc j" for j] Suc by simp
    have hc: "poll (obs (Suc i + k')) = Some c" using Suc.prems(3) Suc by simp
    have hk: "k' < n" using Suc.prems(1) Suc by simp
    show ?thesis
      using Suc.IH [OF hk hj hc, of "after_sleep (loop_body h m) (obs i) s"] h0 Suc
      by (simp add: poll_loop_Suc)
  qed
qed

lemma poll_loop_iterations_le:
  "iterations (poll_loop (loop_body h m) obs n i s) \<le> iterations s + n"
proof (induction n arbitrary: i s)
  case 0
  then show ?case by simp
next
  case (Suc n)
  show ?case using Suc.IH [of "Suc i" "after_sleep (loop_body h m) (obs i) s"]
    by (simp add: poll_loop_Suc)
qed

lemma poll_loop_iterations_ge:
  "iterations s \<le> iterations (poll_loop (loop_body h m) obs n i s)"
proof (induction n arbitrary: i s)
  case 0
  then show ?case by simp
next
  case (Suc n)
  show ?case using Suc.IH [of "after_sleep (loop_body h m) (obs i) s" "Suc i"]
    by (simp add: poll_loop_Suc)
qed

lemma poll_loop_sleeps:
  "sleeps s \<le> sleeps (poll_loop (loop_body h m) obs n i s) \<and>
   sleeps (poll_loop (loop_body h m) obs n i s) - sleeps s
     \<le> iterations (poll_loop (loop_body h m) obs n i s) - iterations s"
proof (induction n arbitrary: i s)
  case 0
  then show ?case by simp
next
  case (Suc n)
  show ?case
    using Suc.IH [of "after_sleep (loop_body h m) (obs i) s" "Suc i"]
      poll_loop_iterations_ge [of "after_sleep (loop_body h m) (obs i) s" h m obs n "Suc i"]
    by (auto simp add: poll_loop_Suc)
qed

lemma poll_loop_bound:
  "0 < n \<Longrightarrow> exit_code_var (poll_loop (loop_body h m) obs n i s) \<noteq> None
     \<and> iterations s < iterations (poll_loop (loop_body h m) obs n i s)"
proof (induction n arbitrary: i s)
  case 0
  then show ?case by simp
next
  case (Suc n)
  show ?case
  proof (cases n)
    case 0
    then show ?thesis by (simp add: poll_loop_Suc)
  next
    case (Suc n')
    then have "0 < n" by simp
    from Suc.IH [OF this, of "Suc i" "after_sleep (loop_body h m) (obs i) s"]
    show ?thesis by (simp add: poll_loop_Suc)
  qed
qed

lemma poll_loop_cpu:
  "process_cpu_var (poll_loop (loop_body h m) obs n i s) = process_cpu_var s"
  by (induction n arbitrary: i s) (simp_all add: poll_loop_Suc)

lemma poll_loop_peak_mono:
  "process_peak_memory_var s \<le> process_peak_memory_var (poll_loop (loop_body h m) obs n i s)"
proof (induction n arbitrary: i s)
  case 0
  then show ?case by simp
next
  case (Suc n)
  show ?case using Suc.IH [of "after_sleep (loop_body h m) (obs i) s" "Suc i"]
    by (simp add: poll_loop_Suc)
qed

lemma poll_loop_peak_ge:
  "j < iterations (poll_loop (loop_body h m) obs n i s) - iterations s \<Longrightarrow>
   snd (get_process_cpu_mem h (snap (obs (i + j))))
     \<le> process_peak_memory_var (poll_loop (loop_body h m) obs n i s)"
proof (induction n arbitrary: i s j)
  case 0
  then show ?case by simp
next
  case (Suc n)
  let ?s3 = "after_sleep (loop_body h m) (obs i) s"
  show ?case
  proof (cases "poll (obs i) \<noteq> None")
    case True
    then show ?thesis using Suc.prems by (simp add: poll_loop_Suc)
  next
    case False
    then have eq: "poll_loop (loop_body h m) obs (Suc n) i s = poll_loop (loop_body h m) obs n (Suc i) ?s3"
      by (simp add: poll_loop_Suc)
    show ?thesis
    proof (cases j)
      case 0
      have "process_peak_memory_var ?s3 \<le> process_peak_memory_var (poll_loop (loop_body h m) obs n (Suc i) ?s3)"
        by (rule poll_loop_peak_mono)
      then show ?thesis using eq 0 by simp
    next
      case (Suc j')
      have "j' < iterations (poll_loop (loop_body h m) obs n (Suc i) ?s3) - iterations ?s3"
        using Suc.prems eq Suc by simp
      from Suc.IH [OF this] show ?thesis using eq Suc by simp
    qed
  qed
qed

lemma poll_loop_peak_attained:
  "process_peak_memory_var (poll_loop (loop_body h m) obs n i s) = process_peak_memory_var s
   \<or> (\<exists>j < iterations (poll_loop (loop_body h m) obs n i s) - iterations s.
        process_peak_memory_var (poll_loop (loop_body h m) obs n i s)
          = snd (get_process_cpu_mem h (snap (obs (i + j)))))"
proof (induction n arbitrary: i s)
  case 0
  then show ?case by simp
next
  case (Suc n)
  let ?s3 = "after_sleep (loop_body h m) (obs i) s"
  let ?L = "poll_loop (loop_body h m) obs (Suc n) i s"
  have itL: "0 < iterations ?L - iterations s"
    using poll_loop_bound [of "Suc n" h m obs i s] by simp
  have first: "process_peak_memory_var ?s3 = process_peak_memory_var s \<or>
      process_peak_memory_var ?s3 = snd (get_process_cpu_mem h (snap (obs (i + 0))))"
    by (simp add: max_def)
  show ?case
  proof (cases "poll (obs i) \<noteq> None")
    case True
    then have "process_peak_memory_var ?L = process_peak_memory_var ?s3"
      by (simp add: poll_loop_Suc)
    with first itL show ?thesis by metis
  next
    case False
    then have eq: "?L = poll_loop (loop_body h m) obs n (Suc i) ?s3"
      by (simp add: poll_loop_Suc)
    from Suc.IH [of "Suc i" ?s3]
    consider (a) "process_peak_memory_var ?L = process_peak_memory_var ?s3"
      | (b) j where "j < iterations ?L - iterations ?s3"
          "process_peak_memory_var ?L = snd (get_process_cpu_mem h (snap (obs (Suc i + j))))"
      using eq by auto
    then show ?thesis
    proof cases
      case a
      with first itL show ?thesis by metis
    next
      case b
      have "Suc j < iterations ?L - iterations s" using b(1) by simp
      moreover have "process_peak_memory_var ?L = snd (get_process_cpu_mem h (snap (obs (i + Suc j))))"
        using b(2) by simp
      ultimately show ?thesis by blast
    qed
  qed
qed

section \<open>Properties of \<open>run\<close>\<close>

subsection \<open>From the loop to the result\<close>


lemma monitor_bound:
  "1 \<le> timeout_seconds req \<Longrightarrow>
     exit_code_var (monitor h w req) \<noteq> None \<and> 1 \<le> iterations (monitor h w req)"
proof -
  assume "1 \<le> timeout_seconds req"
  then have "0 < max_iterations req" by (simp add: max_iterations_def)
  from poll_loop_bound [OF this, of h "max_output_size req" "tick_obs w" 0 init_locals]
  show ?thesis by (simp add: monitor_loop init_locals_def Suc_le_eq)
qed

lemma decode_ignore_total: "decode_utf8 Ignore bs = Inr (List.map_filter id (utf8_scan (map unat bs)))"
  by (simp add: decode_utf8_def)


lemma run_returns:
  assumes "popen_outcome w = Inr pid" and "exit_code_var (monitor h w req) = Some ec"
    and "SC_CLK_TCK h \<noteq> 0" and "\<not> kills_own_group h w req"
  shows "\<exists>r. run h w req = Inr r"
  using assms by (simp add: run_def assemble_def decode_ignore_total Let_def)


lemma run_InrD:
  assumes "run h w req = Inr r"
  shows "\<exists>pid ec. popen_outcome w = Inr pid \<and> exit_code_var (monitor h w req) = Some ec
      \<and> SC_CLK_TCK h \<noteq> 0
      \<and> \<not> kills_own_group h w req
      \<and> cmd r = args req
      \<and> timeout r = (ec = None)
      \<and> exit_code r = (case ec of None \<Rightarrow> - 1 | Some c \<Rightarrow> c)
      \<and> stdout r = List.map_filter id (utf8_scan (map unat (concat (stdout_saved_bytes (monitor h w req)))))
      \<and> stderr r = List.map_filter id (utf8_scan (map unat (concat (stderr_saved_bytes (monitor h w req)))))
      \<and> process_cpu_time r = round2 (process_cpu_var (monitor h w req) / of_int (SC_CLK_TCK h))
      \<and> process_peak_memory r = process_peak_memory_var (monitor h w req)"
  using assms
  by (auto simp add: run_def assemble_def decode_ignore_total Let_def
      split: sum.splits option.splits if_splits)



subsection \<open>The exit-status variable\<close>



subsection \<open>The example calls, evaluated\<close>

lemma eval_exiting:
  "run sandbox_host exiting_world a_request =
     Inr \<lparr>cmd = [''prog''], timeout = False, exit_code = 2, stdout = [104, 105],
        stderr = [], process_cpu_util = 0, process_cpu_time = 0,
        process_exec_time = 1 / 4, process_peak_memory = 5120\<rparr>"
  by code_simp

lemma eval_hanging:
  "run sandbox_host hanging_world a_request =
     Inr \<lparr>cmd = [''prog''], timeout = True, exit_code = - 1, stdout = [],
        stderr = [], process_cpu_util = 0, process_cpu_time = 0,
        process_exec_time = 1 / 4, process_peak_memory = 2048\<rparr>"
  by code_simp

subsection \<open>The tick budget\<close>

lemma first_exit:
  fixes obs :: "nat \<Rightarrow> tick"
  assumes "\<exists>j<n. poll (obs j) \<noteq> None"
  shows "\<exists>k c. k < n \<and> (\<forall>j<k. poll (obs j) = None) \<and> poll (obs k) = Some c"
proof -
  define k where "k = (LEAST j. poll (obs j) \<noteq> None)"
  from assms obtain j0 where j0: "j0 < n" "poll (obs j0) \<noteq> None" by blast
  have pk: "poll (obs k) \<noteq> None"
    unfolding k_def using j0(2) by (rule LeastI [of "\<lambda>j. poll (obs j) \<noteq> None"])
  have "k \<le> j0"
    unfolding k_def using j0(2) by (rule Least_le [of "\<lambda>j. poll (obs j) \<noteq> None"])
  then have kn: "k < n" using j0(1) by simp
  have lt: "\<forall>j<k. poll (obs j) = None"
    unfolding k_def using not_less_Least by blast
  from pk obtain c where "poll (obs k) = Some c" by blast
  with kn lt show ?thesis by blast
qed

lemma monitor_exit:
  assumes "k < nat (timeout_seconds req * 10)"
    and "\<And>j. j < k \<Longrightarrow> poll (tick_obs w j) = None"
    and "poll (tick_obs w k) = Some c"
  shows "exit_code_var (monitor h w req) = Some (Some c)"
    and "iterations (monitor h w req) = k + 1"
    and "sleeps (monitor h w req) = k"
  using poll_loop_exit [of k "max_iterations req" "tick_obs w" 0 c h "max_output_size req" init_locals]
    assms
  by (simp_all add: monitor_loop max_iterations_def init_locals_def)

lemma monitor_no_exit:
  assumes "\<And>j. j < nat (timeout_seconds req * 10) \<Longrightarrow> poll (tick_obs w j) = None"
  shows "exit_code_var (monitor h w req) =
           (if nat (timeout_seconds req * 10) = 0 then None else Some None)"
    and "iterations (monitor h w req) = nat (timeout_seconds req * 10)"
    and "sleeps (monitor h w req) = nat (timeout_seconds req * 10)"
  using poll_loop_no_exit [of "max_iterations req" "tick_obs w" 0 h "max_output_size req" init_locals]
    assms
  by (simp_all add: monitor_loop max_iterations_def init_locals_def)

text \<open>
  Claim C7. The loop of \<open>run\<close> enters its body at most \<open>timeout_seconds * 10\<close> times.
  It stops at the first tick whose poll returns an exit status, having slept once
  after each earlier tick; when no tick of the budget shows a status it runs exactly
  the budget and no tick more. \<open>run\<close> is a total function of its inputs, so the call
  ends after that many iterations.
\<close>

theorem C7_tick_budget:
  "iterations (monitor h w req) \<le> nat (timeout_seconds req * 10)
   \<and> sleeps (monitor h w req) \<le> iterations (monitor h w req)
   \<and> (\<forall>k c. k < nat (timeout_seconds req * 10)
          \<and> (\<forall>j<k. poll (tick_obs w j) = None) \<and> poll (tick_obs w k) = Some c
        \<longrightarrow> iterations (monitor h w req) = k + 1 \<and> sleeps (monitor h w req) = k)
   \<and> ((\<forall>j < nat (timeout_seconds req * 10). poll (tick_obs w j) = None)
        \<longrightarrow> iterations (monitor h w req) = nat (timeout_seconds req * 10)
          \<and> sleeps (monitor h w req) = nat (timeout_seconds req * 10))"
proof (intro conjI allI impI)
  show "iterations (monitor h w req) \<le> nat (timeout_seconds req * 10)"
    using poll_loop_iterations_le [of h "max_output_size req" "tick_obs w" "max_iterations req" 0 init_locals]
    by (simp add: monitor_loop max_iterations_def init_locals_def)
  show "sleeps (monitor h w req) \<le> iterations (monitor h w req)"
    using poll_loop_sleeps [of init_locals h "max_output_size req" "tick_obs w" "max_iterations req" 0]
    by (simp add: monitor_loop init_locals_def)
next
  fix k c
  assume a: "k < nat (timeout_seconds req * 10)
          \<and> (\<forall>j<k. poll (tick_obs w j) = None) \<and> poll (tick_obs w k) = Some c"
  then show "iterations (monitor h w req) = k + 1" by (intro monitor_exit(2)) auto
  from a show "sleeps (monitor h w req) = k" by (intro monitor_exit(3)) auto
next
  assume a: "\<forall>j < nat (timeout_seconds req * 10). poll (tick_obs w j) = None"
  then show "iterations (monitor h w req) = nat (timeout_seconds req * 10)"
    by (intro monitor_no_exit(2)) auto
  from a show "sleeps (monitor h w req) = nat (timeout_seconds req * 10)"
    by (intro monitor_no_exit(3)) auto
qed

theorem C7_tick_budget_witness:
  "(1::nat) < nat (timeout_seconds a_request * 10)
   \<and> poll (tick_obs exiting_world 0) = None \<and> poll (tick_obs exiting_world 1) = Some 2
   \<and> iterations (monitor linux_host exiting_world a_request) = 2
   \<and> sleeps (monitor linux_host exiting_world a_request) = 1
   \<and> poll idle_tick = None
   \<and> iterations (monitor linux_host hanging_world a_request) = 10
   \<and> sleeps (monitor linux_host hanging_world a_request) = 10"
proof -
  have 1: "(1::nat) < nat (timeout_seconds a_request * 10)" by (simp add: a_request_def)
  have 2: "poll (tick_obs exiting_world 0) = None"
    by (simp add: exiting_world_def first_tick_def)
  have 3: "poll (tick_obs exiting_world 1) = Some 2"
    by (simp add: exiting_world_def exit_tick_def)
  have 4: "\<forall>j<1. poll (tick_obs exiting_world j) = None" using 2 by simp
  have 5: "poll idle_tick = None" by (simp add: idle_tick_def)
  have 6: "\<forall>j < nat (timeout_seconds a_request * 10). poll (tick_obs hanging_world j) = None"
    using 5 by (simp add: hanging_world_def)
  have 7: "nat (timeout_seconds a_request * 10) = 10" by (simp add: a_request_def)
  from C7_tick_budget [of linux_host exiting_world a_request] 1 3 4
  have a: "iterations (monitor linux_host exiting_world a_request) = 1 + 1
        \<and> sleeps (monitor linux_host exiting_world a_request) = 1"
    by blast
  from C7_tick_budget [of linux_host hanging_world a_request] 6 7
  have b: "iterations (monitor linux_host hanging_world a_request) = 10
        \<and> sleeps (monitor linux_host hanging_world a_request) = 10"
    by simp
  show ?thesis using 1 2 3 5 a b by simp
qed

subsection \<open>Timeout and exit status\<close>

text \<open>
  Claim C4. In the result of \<open>run\<close>, \<open>timeout\<close> is true exactly when no poll within
  the tick budget returned an exit status, and then \<open>exit_code\<close> is -1; when the
  child's status is first seen at a tick within the budget, \<open>timeout\<close> is false and
  \<open>exit_code\<close> is that status.
\<close>

theorem C4_timeout_exit_code:
  assumes "run h w req = Inr r"
  shows "(timeout r \<longleftrightarrow> (\<forall>j < nat (timeout_seconds req * 10). poll (tick_obs w j) = None))
       \<and> (timeout r \<longrightarrow> exit_code r = - 1)
       \<and> (\<forall>k c. k < nat (timeout_seconds req * 10)
              \<and> (\<forall>j<k. poll (tick_obs w j) = None) \<and> poll (tick_obs w k) = Some c
            \<longrightarrow> \<not> timeout r \<and> exit_code r = c)"
proof -
  from run_InrD [OF assms] obtain ec where
    ec: "exit_code_var (monitor h w req) = Some ec"
    and tm: "timeout r = (ec = None)"
    and xc: "exit_code r = (case ec of None \<Rightarrow> - 1 | Some c \<Rightarrow> c)"
    by blast
  let ?n = "nat (timeout_seconds req * 10)"
  have exitd: "\<not> timeout r \<and> exit_code r = c"
    if "k < ?n" "\<forall>j<k. poll (tick_obs w j) = None" "poll (tick_obs w k) = Some c" for k c
  proof -
    have "exit_code_var (monitor h w req) = Some (Some c)"
      using that by (intro monitor_exit(1)) auto
    with ec have "ec = Some c" by simp
    with tm xc show ?thesis by simp
  qed
  have iff: "timeout r \<longleftrightarrow> (\<forall>j < ?n. poll (tick_obs w j) = None)"
  proof
    assume t: "timeout r"
    show "\<forall>j < ?n. poll (tick_obs w j) = None"
    proof (rule ccontr)
      assume "\<not> (\<forall>j < ?n. poll (tick_obs w j) = None)"
      then have "\<exists>j < ?n. poll (tick_obs w j) \<noteq> None" by blast
      from first_exit [OF this] obtain k c where "k < ?n" "\<forall>j<k. poll (tick_obs w j) = None"
        "poll (tick_obs w k) = Some c" by blast
      then have "\<not> timeout r" using exitd by blast
      with t show False by simp
    qed
  next
    assume a: "\<forall>j < ?n. poll (tick_obs w j) = None"
    then have "exit_code_var (monitor h w req) = (if ?n = 0 then None else Some None)"
      by (intro monitor_no_exit(1)) auto
    with ec have "ec = None" by (simp split: if_splits)
    with tm show "timeout r" by simp
  qed
  have m1: "timeout r \<longrightarrow> exit_code r = - 1" using tm xc by simp
  show ?thesis using iff m1 exitd by blast
qed

theorem C4_timeout_exit_code_witness:
  "run sandbox_host exiting_world a_request =
     Inr \<lparr>cmd = [''prog''], timeout = False, exit_code = 2, stdout = [104, 105],
        stderr = [], process_cpu_util = 0, process_cpu_time = 0,
        process_exec_time = 1 / 4, process_peak_memory = 5120\<rparr>
   \<and> (1::nat) < nat (timeout_seconds a_request * 10)
   \<and> poll (tick_obs exiting_world 0) = None \<and> poll (tick_obs exiting_world 1) = Some 2
   \<and> run sandbox_host hanging_world a_request =
     Inr \<lparr>cmd = [''prog''], timeout = True, exit_code = - 1, stdout = [],
        stderr = [], process_cpu_util = 0, process_cpu_time = 0,
        process_exec_time = 1 / 4, process_peak_memory = 2048\<rparr>
   \<and> (\<exists>j < nat (timeout_seconds a_request * 10). poll (tick_obs exiting_world j) \<noteq> None)
   \<and> poll idle_tick = None"
proof -
  have 1: "(1::nat) < nat (timeout_seconds a_request * 10)" by (simp add: a_request_def)
  have 2: "poll (tick_obs exiting_world 0) = None"
    by (simp add: exiting_world_def first_tick_def)
  have 3: "poll (tick_obs exiting_world 1) = Some 2"
    by (simp add: exiting_world_def exit_tick_def)
  have 5: "poll idle_tick = None" by (simp add: idle_tick_def)
  have 6: "\<forall>j < nat (timeout_seconds a_request * 10). poll (tick_obs hanging_world j) = None"
    using 5 by (simp add: hanging_world_def)
  have a: "\<exists>j < nat (timeout_seconds a_request * 10). poll (tick_obs exiting_world j) \<noteq> None"
    using C4_timeout_exit_code [OF eval_exiting] by simp
  have b: "timeout \<lparr>cmd = [''prog''], timeout = True, exit_code = - 1, stdout = [],
        stderr = [], process_cpu_util = 0, process_cpu_time = 0,
        process_exec_time = 1 / 4, process_peak_memory = 2048\<rparr>"
    using C4_timeout_exit_code [OF eval_hanging] 6 by blast
  show ?thesis using 1 2 3 5 a b eval_exiting eval_hanging by simp
qed

subsection \<open>Peak memory\<close>

lemma Max_characterised:
  fixes p :: int
  assumes "finite A" and "p \<in> A" and "\<And>a. a \<in> A \<Longrightarrow> a \<le> p"
  shows "Max A = p"
  using assms by (intro Max_eqI) auto

text \<open>
  Claim C6. The peak starts at 0; no loop body and no later part of the loop lowers
  it; and the \<open>process_peak_memory\<close> that \<open>run\<close> returns is the largest of 0 and the
  memory samples of the ticks the loop ran, so it is at least each of them.
\<close>

theorem C6_peak_memory:
  assumes "run h w req = Inr r"
  shows "process_peak_memory_var init_locals = 0
       \<and> (\<forall>j < iterations (monitor h w req). mem_sample h w j \<le> process_peak_memory r)
       \<and> process_peak_memory r
           = Max (insert 0 (mem_sample h w ` {..< iterations (monitor h w req)}))
       \<and> process_peak_memory_var s \<le> process_peak_memory_var (sample h t s)
       \<and> process_peak_memory_var s \<le> process_peak_memory_var (posix_body h m t s)
       \<and> process_peak_memory_var s
           \<le> process_peak_memory_var
               (poll_loop (if os_name h = Nt then sample h else posix_body h m) obs n i s)"
proof -
  let ?L = "poll_loop (loop_body h (max_output_size req)) (tick_obs w) (max_iterations req) 0 init_locals"
  let ?S = "insert 0 (mem_sample h w ` {..< iterations (monitor h w req)})"
  from run_InrD [OF assms]
  have pr: "process_peak_memory r = process_peak_memory_var ?L"
    by (auto simp: monitor_loop)
  have it: "iterations (monitor h w req) = iterations ?L - iterations init_locals"
    by (simp add: monitor_loop init_locals_def)
  have ge: "mem_sample h w j \<le> process_peak_memory r" if "j < iterations (monitor h w req)" for j
    using poll_loop_peak_ge [of j h "max_output_size req" "tick_obs w" "max_iterations req" 0 init_locals]
      that pr it
    by (simp add: mem_sample_def)
  have ge0: "0 \<le> process_peak_memory r"
    using poll_loop_peak_mono [of init_locals h "max_output_size req" "tick_obs w" "max_iterations req" 0] pr
    by (simp add: init_locals_def)
  have att: "process_peak_memory r \<in> ?S"
    using poll_loop_peak_attained [of h "max_output_size req" "tick_obs w" "max_iterations req" 0 init_locals]
      pr it
    by (auto simp: mem_sample_def init_locals_def)
  have mx: "Max ?S = process_peak_memory r"
    using att ge ge0 by (intro Max_characterised) auto
  have mono: "process_peak_memory_var s
           \<le> process_peak_memory_var
               (poll_loop (if os_name h = Nt then sample h else posix_body h m) obs n i s)"
    using poll_loop_peak_mono [of s h m obs n i] by (simp add: loop_body_def)
  show ?thesis
    using ge mx mono by (simp add: init_locals_def posix_body_def)
qed

theorem C6_peak_memory_witness:
  "run sandbox_host exiting_world a_request =
     Inr \<lparr>cmd = [''prog''], timeout = False, exit_code = 2, stdout = [104, 105],
        stderr = [], process_cpu_util = 0, process_cpu_time = 0,
        process_exec_time = 1 / 4, process_peak_memory = 5120\<rparr>
   \<and> (1::nat) < iterations (monitor sandbox_host exiting_world a_request)
   \<and> mem_sample sandbox_host exiting_world 0 = 5120
   \<and> mem_sample sandbox_host exiting_world 1 = 2048
   \<and> mem_sample sandbox_host exiting_world 1 \<le> (5120::int)"
proof -
  have it: "iterations (monitor sandbox_host exiting_world a_request) = 2" by code_simp
  have m0: "mem_sample sandbox_host exiting_world 0 = 5120" by code_simp
  have m1: "mem_sample sandbox_host exiting_world 1 = 2048" by code_simp
  have "\<forall>j < iterations (monitor sandbox_host exiting_world a_request).
          mem_sample sandbox_host exiting_world j \<le> process_peak_memory
            \<lparr>cmd = [''prog''], timeout = False, exit_code = 2, stdout = [104, 105],
        stderr = [], process_cpu_util = 0, process_cpu_time = 0,
        process_exec_time = 1 / 4, process_peak_memory = 5120\<rparr>"
    using C6_peak_memory [OF eval_exiting] by blast
  then have "mem_sample sandbox_host exiting_world 1 \<le> (5120::int)" using it by simp
  then show ?thesis using it m0 m1 eval_exiting by simp
qed

subsection \<open>The output cap\<close>

lemma within_cap_append:
  assumes "within_cap m saved n" and "n < m" and "length chunk \<le> MAX_BYTES_PER_READ"
  shows "within_cap m (saved @ [chunk]) (n + int (length chunk))"
  using assms by (simp add: within_cap_def)

lemma within_cap_take:
  assumes "within_cap m saved n" and "n < m"
  shows "within_cap m (saved @ [take MAX_BYTES_PER_READ avail])
           (n + int (min (length avail) MAX_BYTES_PER_READ))"
  using assms by (simp add: within_cap_def)

lemma drain_stdout:
  "within_cap m (stdout_saved_bytes s) (stdout_bytes_read s) \<Longrightarrow>
   within_cap m (stdout_saved_bytes (drain m t s)) (stdout_bytes_read (drain m t s))"
  by (simp add: drain_def Let_def within_cap_take)

lemma drain_stderr:
  "within_cap m (stderr_saved_bytes s) (stderr_bytes_read s) \<Longrightarrow>
   within_cap m (stderr_saved_bytes (drain m t s)) (stderr_bytes_read (drain m t s))"
  by (simp add: drain_def Let_def within_cap_take)

lemma drain_discards:
  "m \<le> stdout_bytes_read s \<Longrightarrow>
     stdout_saved_bytes (drain m t s) = stdout_saved_bytes s
     \<and> stdout_bytes_read (drain m t s) = stdout_bytes_read s"
  "m \<le> stderr_bytes_read s \<Longrightarrow>
     stderr_saved_bytes (drain m t s) = stderr_saved_bytes s
     \<and> stderr_bytes_read (drain m t s) = stderr_bytes_read s"
  by (simp_all add: drain_def Let_def)

lemma after_sleep_streams [simp]:
  "stdout_saved_bytes (after_sleep body t s) = stdout_saved_bytes (body t s)"
  "stdout_bytes_read (after_sleep body t s) = stdout_bytes_read (body t s)"
  "stderr_saved_bytes (after_sleep body t s) = stderr_saved_bytes (body t s)"
  "stderr_bytes_read (after_sleep body t s) = stderr_bytes_read (body t s)"
  "stdout_saved_bytes (after_poll body t s) = stdout_saved_bytes (body t s)"
  "stdout_bytes_read (after_poll body t s) = stdout_bytes_read (body t s)"
  "stderr_saved_bytes (after_poll body t s) = stderr_saved_bytes (body t s)"
  "stderr_bytes_read (after_poll body t s) = stderr_bytes_read (body t s)"
  by (simp_all add: after_sleep_def after_poll_def)

lemma posix_loop_within_cap:
  "within_cap m (stdout_saved_bytes s) (stdout_bytes_read s) \<Longrightarrow>
   within_cap m (stderr_saved_bytes s) (stderr_bytes_read s) \<Longrightarrow>
   within_cap m (stdout_saved_bytes (poll_loop (posix_body h m) obs n i s))
                (stdout_bytes_read (poll_loop (posix_body h m) obs n i s))
   \<and> within_cap m (stderr_saved_bytes (poll_loop (posix_body h m) obs n i s))
                  (stderr_bytes_read (poll_loop (posix_body h m) obs n i s))"
proof (induction n arbitrary: i s)
  case 0
  then show ?case by simp
next
  case (Suc n)
  have o: "within_cap m (stdout_saved_bytes (posix_body h m (obs i) s))
             (stdout_bytes_read (posix_body h m (obs i) s))"
    unfolding posix_body_def using Suc.prems(1) by (intro drain_stdout) simp
  have e: "within_cap m (stderr_saved_bytes (posix_body h m (obs i) s))
             (stderr_bytes_read (posix_body h m (obs i) s))"
    unfolding posix_body_def using Suc.prems(2) by (intro drain_stderr) simp
  show ?case
    using Suc.IH [of "after_sleep (posix_body h m) (obs i) s" "Suc i"] o e
    by (simp add: poll_loop_Suc)
qed

lemma read_stream_within_cap:
  "within_cap m out k \<Longrightarrow>
   within_cap m (fst (read_stream m evs (out, k))) (snd (read_stream m evs (out, k)))"
proof (induction evs arbitrary: out k)
  case Nil
  then show ?case by simp
next
  case (Cons ev evs)
  show ?case
  proof (cases ev)
    case ReadRaises
    then show ?thesis using Cons.prems by simp
  next
    case (ReadData avail)
    show ?thesis
    proof (cases "k < m \<and> take MAX_BYTES_PER_READ avail \<noteq> []")
      case True
      then have "within_cap m (out @ [take MAX_BYTES_PER_READ avail])
                   (k + int (length (take MAX_BYTES_PER_READ avail)))"
        using Cons.prems by (intro within_cap_append) simp_all
      from Cons.IH [OF this] show ?thesis using True ReadData by (simp add: Let_def)
    next
      case False
      then show ?thesis using Cons.prems ReadData by (auto simp: Let_def)
    qed
  qed
qed

lemma read_stream_discards:
  "m \<le> k \<Longrightarrow> read_stream m evs (out, k) = (out, k)"
  by (cases evs) simp_all

lemma within_cap_init: "0 \<le> m \<Longrightarrow> within_cap m [] 0"
  by (simp add: within_cap_def)

lemma monitor_within_cap:
  assumes "0 \<le> max_output_size req"
  shows "within_cap (max_output_size req) (stdout_saved_bytes (monitor h w req))
           (stdout_bytes_read (monitor h w req))"
    and "within_cap (max_output_size req) (stderr_saved_bytes (monitor h w req))
           (stderr_bytes_read (monitor h w req))"
proof -
  have i: "within_cap (max_output_size req) [] 0" using assms by (rule within_cap_init)
  have p: "within_cap (max_output_size req) (stdout_saved_bytes init_locals) (stdout_bytes_read init_locals)"
      "within_cap (max_output_size req) (stderr_saved_bytes init_locals) (stderr_bytes_read init_locals)"
    using i by (simp_all add: init_locals_def)
  show "within_cap (max_output_size req) (stdout_saved_bytes (monitor h w req))
           (stdout_bytes_read (monitor h w req))"
    using read_stream_within_cap [OF i, of "thread_stdout w"]
      posix_loop_within_cap [OF p, of h "tick_obs w" "nat (timeout_seconds req * 10)" 0]
    by (simp add: monitor_def Let_def)
  show "within_cap (max_output_size req) (stderr_saved_bytes (monitor h w req))
           (stderr_bytes_read (monitor h w req))"
    using read_stream_within_cap [OF i, of "thread_stderr w"]
      posix_loop_within_cap [OF p, of h "tick_obs w" "nat (timeout_seconds req * 10)" 0]
    by (simp add: monitor_def Let_def)
qed

lemma length_utf8_scan: "length (utf8_scan bs) \<le> length bs"
proof (induction bs rule: utf8_scan.induct)
  case 1
  then show ?case by simp
next
  case (2 b bs)
  have "length (drop (snd (utf8_seq b bs) - 1) bs) \<le> length bs" by simp
  with 2 show ?case by simp
qed

lemma length_decoded:
  "length (List.map_filter id (utf8_scan (map unat bs))) \<le> length bs"
proof -
  have "length (List.map_filter id (utf8_scan (map unat bs))) \<le> length (utf8_scan (map unat bs))"
    by (simp add: List.map_filter_def)
  also have "\<dots> \<le> length (map unat bs)" by (rule length_utf8_scan)
  finally show ?thesis by simp
qed

lemma posix_loop_discards:
  "(m \<le> stdout_bytes_read s \<longrightarrow>
      stdout_saved_bytes (poll_loop (posix_body h m) obs n i s) = stdout_saved_bytes s
      \<and> stdout_bytes_read (poll_loop (posix_body h m) obs n i s) = stdout_bytes_read s)
   \<and> (m \<le> stderr_bytes_read s \<longrightarrow>
      stderr_saved_bytes (poll_loop (posix_body h m) obs n i s) = stderr_saved_bytes s
      \<and> stderr_bytes_read (poll_loop (posix_body h m) obs n i s) = stderr_bytes_read s)"
proof (induction n arbitrary: i s)
  case 0
  then show ?case by simp
next
  case (Suc n)
  have o: "m \<le> stdout_bytes_read s \<Longrightarrow>
      stdout_saved_bytes (posix_body h m (obs i) s) = stdout_saved_bytes s
      \<and> stdout_bytes_read (posix_body h m (obs i) s) = stdout_bytes_read s"
    using drain_discards(1) [of m "sample h (obs i) s" "obs i"] by (simp add: posix_body_def)
  have e: "m \<le> stderr_bytes_read s \<Longrightarrow>
      stderr_saved_bytes (posix_body h m (obs i) s) = stderr_saved_bytes s
      \<and> stderr_bytes_read (posix_body h m (obs i) s) = stderr_bytes_read s"
    using drain_discards(2) [of m "sample h (obs i) s" "obs i"] by (simp add: posix_body_def)
  show ?case
    using Suc.IH [of "after_sleep (posix_body h m) (obs i) s" "Suc i"] o e
    by (simp add: poll_loop_Suc)
qed

lemma monitor_negative_cap:
  assumes "max_output_size req \<le> 0"
  shows "stdout_saved_bytes (monitor h w req) = [] \<and> stderr_saved_bytes (monitor h w req) = []"
proof -
  have "max_output_size req \<le> stdout_bytes_read init_locals"
    and "max_output_size req \<le> stderr_bytes_read init_locals"
    using assms by (simp_all add: init_locals_def)
  with posix_loop_discards [of "max_output_size req" init_locals h "tick_obs w"
      "nat (timeout_seconds req * 10)" 0]
  have "stdout_saved_bytes (poll_loop (posix_body h (max_output_size req)) (tick_obs w)
            (nat (timeout_seconds req * 10)) 0 init_locals) = []
      \<and> stderr_saved_bytes (poll_loop (posix_body h (max_output_size req)) (tick_obs w)
            (nat (timeout_seconds req * 10)) 0 init_locals) = []"
    by (simp add: init_locals_def)
  then show ?thesis
    using assms by (simp add: monitor_def Let_def read_stream_discards)
qed

text \<open>
  Claim C5. With a cap that is not negative, for each stream, at every budget of the
  non-blocking loop, after any reads of a reader thread and in the state \<open>run\<close>
  decodes: the counter is the byte length of the chunks kept, every chunk has at most
  1024 bytes, and the counter is at most \<open>max_output_size + 1024\<close>; so is the length of
  the decoded text. Once a counter has reached the cap, a loop body, the rest of the
  loop and a reader thread keep nothing more of that stream; a cap below 1 keeps
  nothing at all.
\<close>

theorem C5_output_cap:
  "(0 \<le> max_output_size req \<longrightarrow>
       stdout_bytes_read (monitor h w req)
         = int (length (concat (stdout_saved_bytes (monitor h w req))))
     \<and> stdout_bytes_read (monitor h w req) \<le> max_output_size req + 1024
     \<and> stderr_bytes_read (monitor h w req)
         = int (length (concat (stderr_saved_bytes (monitor h w req))))
     \<and> stderr_bytes_read (monitor h w req) \<le> max_output_size req + 1024
     \<and> within_cap (max_output_size req)
          (stdout_saved_bytes (poll_loop (posix_body h (max_output_size req)) obs n 0 init_locals))
          (stdout_bytes_read (poll_loop (posix_body h (max_output_size req)) obs n 0 init_locals))
     \<and> within_cap (max_output_size req)
          (stderr_saved_bytes (poll_loop (posix_body h (max_output_size req)) obs n 0 init_locals))
          (stderr_bytes_read (poll_loop (posix_body h (max_output_size req)) obs n 0 init_locals))
     \<and> within_cap (max_output_size req)
          (fst (read_stream (max_output_size req) evs ([], 0)))
          (snd (read_stream (max_output_size req) evs ([], 0)))
     \<and> (run h w req = Inr r \<longrightarrow>
          int (length (stdout r)) \<le> max_output_size req + 1024
          \<and> int (length (stderr r)) \<le> max_output_size req + 1024))
   \<and> (max_output_size req \<le> stdout_bytes_read s \<longrightarrow>
        stdout_saved_bytes (posix_body h (max_output_size req) t s) = stdout_saved_bytes s
        \<and> stdout_bytes_read (posix_body h (max_output_size req) t s) = stdout_bytes_read s
        \<and> stdout_saved_bytes (poll_loop (posix_body h (max_output_size req)) obs n i s)
            = stdout_saved_bytes s)
   \<and> (max_output_size req \<le> stderr_bytes_read s \<longrightarrow>
        stderr_saved_bytes (posix_body h (max_output_size req) t s) = stderr_saved_bytes s
        \<and> stderr_bytes_read (posix_body h (max_output_size req) t s) = stderr_bytes_read s
        \<and> stderr_saved_bytes (poll_loop (posix_body h (max_output_size req)) obs n i s)
            = stderr_saved_bytes s)
   \<and> (max_output_size req \<le> k \<longrightarrow>
        read_stream (max_output_size req) evs (out, k) = (out, k))
   \<and> (max_output_size req \<le> 0 \<longrightarrow>
        stdout_saved_bytes (monitor h w req) = [] \<and> stderr_saved_bytes (monitor h w req) = [])"
proof -
  let ?m = "max_output_size req"
  have pos: "stdout_bytes_read (monitor h w req)
         = int (length (concat (stdout_saved_bytes (monitor h w req))))
     \<and> stdout_bytes_read (monitor h w req) \<le> ?m + 1024
     \<and> stderr_bytes_read (monitor h w req)
         = int (length (concat (stderr_saved_bytes (monitor h w req))))
     \<and> stderr_bytes_read (monitor h w req) \<le> ?m + 1024
     \<and> within_cap ?m
          (stdout_saved_bytes (poll_loop (posix_body h ?m) obs n 0 init_locals))
          (stdout_bytes_read (poll_loop (posix_body h ?m) obs n 0 init_locals))
     \<and> within_cap ?m
          (stderr_saved_bytes (poll_loop (posix_body h ?m) obs n 0 init_locals))
          (stderr_bytes_read (poll_loop (posix_body h ?m) obs n 0 init_locals))
     \<and> within_cap ?m (fst (read_stream ?m evs ([], 0))) (snd (read_stream ?m evs ([], 0)))
     \<and> (run h w req = Inr r \<longrightarrow>
          int (length (stdout r)) \<le> ?m + 1024 \<and> int (length (stderr r)) \<le> ?m + 1024)"
    if nonneg: "0 \<le> ?m"
  proof -
    note mc = monitor_within_cap [OF nonneg, of h w]
    have i: "within_cap ?m [] 0" using nonneg by (rule within_cap_init)
    have p: "within_cap ?m (stdout_saved_bytes init_locals) (stdout_bytes_read init_locals)"
      "within_cap ?m (stderr_saved_bytes init_locals) (stderr_bytes_read init_locals)"
      using i by (simp_all add: init_locals_def)
    have a: "stdout_bytes_read (monitor h w req)
               = int (length (concat (stdout_saved_bytes (monitor h w req))))"
      "stdout_bytes_read (monitor h w req) \<le> ?m + 1024"
      using mc(1) by (simp_all add: within_cap_def MAX_BYTES_PER_READ_def)
    have b: "stderr_bytes_read (monitor h w req)
               = int (length (concat (stderr_saved_bytes (monitor h w req))))"
      "stderr_bytes_read (monitor h w req) \<le> ?m + 1024"
      using mc(2) by (simp_all add: within_cap_def MAX_BYTES_PER_READ_def)
    note c = posix_loop_within_cap [OF p, of h obs n 0]
    note d = read_stream_within_cap [OF i, of evs]
    have r: "int (length (stdout r)) \<le> ?m + 1024 \<and> int (length (stderr r)) \<le> ?m + 1024"
      if "run h w req = Inr r"
    proof -
      from run_InrD [OF that] have
        so: "stdout r = List.map_filter id
               (utf8_scan (map unat (concat (stdout_saved_bytes (monitor h w req)))))"
        and se: "stderr r = List.map_filter id
               (utf8_scan (map unat (concat (stderr_saved_bytes (monitor h w req)))))"
        by blast+
      have "length (stdout r) \<le> length (concat (stdout_saved_bytes (monitor h w req)))"
        unfolding so by (rule length_decoded)
      moreover have "length (stderr r) \<le> length (concat (stderr_saved_bytes (monitor h w req)))"
        unfolding se by (rule length_decoded)
      ultimately show ?thesis using a b by linarith
    qed
    show ?thesis using a b c d r by blast
  qed
  have e: "?m \<le> stdout_bytes_read s \<longrightarrow>
            stdout_saved_bytes (posix_body h ?m t s) = stdout_saved_bytes s
            \<and> stdout_bytes_read (posix_body h ?m t s) = stdout_bytes_read s
            \<and> stdout_saved_bytes (poll_loop (posix_body h ?m) obs n i s) = stdout_saved_bytes s"
    using drain_discards(1) [of ?m "sample h t s" t] posix_loop_discards [of ?m s h obs n i]
    by (simp add: posix_body_def)
  have f: "?m \<le> stderr_bytes_read s \<longrightarrow>
            stderr_saved_bytes (posix_body h ?m t s) = stderr_saved_bytes s
            \<and> stderr_bytes_read (posix_body h ?m t s) = stderr_bytes_read s
            \<and> stderr_saved_bytes (poll_loop (posix_body h ?m) obs n i s) = stderr_saved_bytes s"
    using drain_discards(2) [of ?m "sample h t s" t] posix_loop_discards [of ?m s h obs n i]
    by (simp add: posix_body_def)
  have g: "?m \<le> k \<longrightarrow> read_stream ?m evs (out, k) = (out, k)"
    by (simp add: read_stream_discards)
  have z: "?m \<le> 0 \<longrightarrow>
        stdout_saved_bytes (monitor h w req) = [] \<and> stderr_saved_bytes (monitor h w req) = []"
    using monitor_negative_cap [of req h w] by blast
  show ?thesis using pos e f g z by blast
qed

theorem C5_output_cap_witness:
  "(0::int) \<le> max_output_size (a_request\<lparr>max_output_size := 2\<rparr>)
   \<and> stdout_bytes_read (monitor linux_host exiting_world (a_request\<lparr>max_output_size := 2\<rparr>)) = 3
   \<and> stdout_saved_bytes (monitor linux_host exiting_world (a_request\<lparr>max_output_size := 2\<rparr>))
       = [[104, 255, 105]]
   \<and> (3::int) \<le> 2 + 1024
   \<and> max_output_size (a_request\<lparr>max_output_size := 2\<rparr>)
       \<le> stdout_bytes_read (monitor linux_host exiting_world (a_request\<lparr>max_output_size := 2\<rparr>))
   \<and> stdout_saved_bytes (posix_body linux_host 2 first_tick
        (monitor linux_host exiting_world (a_request\<lparr>max_output_size := 2\<rparr>))) = [[104, 255, 105]]
   \<and> read_stream 2 [ReadData [104, 255, 105], ReadData [104]] ([], 0) = ([[104, 255, 105]], 3)
   \<and> max_output_size (a_request\<lparr>max_output_size := 0\<rparr>) \<le> 0
   \<and> stdout_saved_bytes (monitor linux_host exiting_world (a_request\<lparr>max_output_size := 0\<rparr>)) = []"
proof -
  let ?req = "a_request\<lparr>max_output_size := 2\<rparr>"
  let ?s = "monitor linux_host exiting_world ?req"
  have 0: "(0::int) \<le> max_output_size ?req" by simp
  have 1: "stdout_bytes_read ?s = 3" by code_simp
  have 2: "stdout_saved_bytes ?s = [[104, 255, 105]]" by code_simp
  have 3: "max_output_size ?req \<le> stdout_bytes_read ?s" using 1 by simp
  have 4: "read_stream 2 [ReadData [104, 255, 105], ReadData [104]] ([], 0) = ([[104, 255, 105]], 3)"
    by code_simp
  from C5_output_cap [of ?req linux_host exiting_world] 0
  have "stdout_bytes_read ?s \<le> max_output_size ?req + 1024" by blast
  then have 5: "(3::int) \<le> 2 + 1024" using 1 by simp
  from C5_output_cap [of ?req linux_host exiting_world _ _ _ _ ?s first_tick] 3
  have "stdout_saved_bytes (posix_body linux_host (max_output_size ?req) first_tick ?s)
          = stdout_saved_bytes ?s" by blast
  then have 6: "stdout_saved_bytes (posix_body linux_host 2 first_tick ?s) = [[104, 255, 105]]"
    using 2 by simp
  have 7: "max_output_size (a_request\<lparr>max_output_size := 0\<rparr>) \<le> 0" by simp
  from C5_output_cap [of "a_request\<lparr>max_output_size := 0\<rparr>" linux_host exiting_world] 7
  have 8: "stdout_saved_bytes (monitor linux_host exiting_world (a_request\<lparr>max_output_size := 0\<rparr>)) = []"
    by blast
  show ?thesis using 0 1 2 3 4 5 6 7 8 by simp
qed

subsection \<open>Decoding the captured bytes\<close>

lemma run_never_decode_error: "run h w req \<noteq> Inl UnicodeDecodeError"
  by (auto simp add: run_def assemble_def decode_ignore_total Let_def
      split: sum.splits option.splits if_splits)

text \<open>
  Claim C3, as the code has it. \<open>run\<close> decodes with \<open>errors="ignore"\<close>: the text of
  a stream is the code points of the well-formed sequences of its concatenated chunks,
  in order, and an ill-formed sequence contributes nothing (it is dropped, not
  replaced by U+FFFD). Decoding in this mode has no error case, so it never fails the
  call.
\<close>

theorem C3_decode_ignore:
  "decode_utf8 Ignore bs \<noteq> Inl e
   \<and> run h w req \<noteq> Inl UnicodeDecodeError
   \<and> (run h w req = Inr r \<longrightarrow>
        decode_utf8 Ignore (concat (stdout_saved_bytes (monitor h w req))) = Inr (stdout r)
        \<and> decode_utf8 Ignore (concat (stderr_saved_bytes (monitor h w req))) = Inr (stderr r)
        \<and> stdout r = List.map_filter id
             (utf8_scan (map unat (concat (stdout_saved_bytes (monitor h w req)))))
        \<and> stderr r = List.map_filter id
             (utf8_scan (map unat (concat (stderr_saved_bytes (monitor h w req))))))"
proof (intro conjI impI)
  show "decode_utf8 Ignore bs \<noteq> Inl e" by (simp add: decode_ignore_total)
  show "run h w req \<noteq> Inl UnicodeDecodeError" by (rule run_never_decode_error)
next
  assume a: "run h w req = Inr r"
  from run_InrD [OF a] have
    so: "stdout r = List.map_filter id (utf8_scan (map unat (concat (stdout_saved_bytes (monitor h w req)))))"
    and se: "stderr r = List.map_filter id (utf8_scan (map unat (concat (stderr_saved_bytes (monitor h w req)))))"
    by blast+
  show "stdout r = List.map_filter id
             (utf8_scan (map unat (concat (stdout_saved_bytes (monitor h w req)))))"
    by (rule so)
  show "stderr r = List.map_filter id
             (utf8_scan (map unat (concat (stderr_saved_bytes (monitor h w req)))))"
    by (rule se)
  show "decode_utf8 Ignore (concat (stdout_saved_bytes (monitor h w req))) = Inr (stdout r)"
    using so by (simp add: decode_ignore_total)
  show "decode_utf8 Ignore (concat (stderr_saved_bytes (monitor h w req))) = Inr (stderr r)"
    using se by (simp add: decode_ignore_total)
qed

theorem C3_decode_ignore_witness:
  "run sandbox_host exiting_world a_request =
     Inr \<lparr>cmd = [''prog''], timeout = False, exit_code = 2, stdout = [104, 105],
        stderr = [], process_cpu_util = 0, process_cpu_time = 0,
        process_exec_time = 1 / 4, process_peak_memory = 5120\<rparr>
   \<and> concat (stdout_saved_bytes (monitor sandbox_host exiting_world a_request)) = [104, 255, 105]
   \<and> decode_utf8 Ignore [104, 255, 105] = Inr [104, 105]"
proof -
  let ?r = "\<lparr>cmd = [''prog''], timeout = False, exit_code = 2, stdout = [104, 105],
        stderr = [], process_cpu_util = 0, process_cpu_time = 0,
        process_exec_time = 1 / 4, process_peak_memory = 5120::int\<rparr>"
  have c: "concat (stdout_saved_bytes (monitor sandbox_host exiting_world a_request)) = [104, 255, 105]"
    by code_simp
  from C3_decode_ignore [of _ _ sandbox_host exiting_world a_request ?r] eval_exiting
  have "decode_utf8 Ignore (concat (stdout_saved_bytes (monitor sandbox_host exiting_world a_request)))
          = Inr (stdout ?r)" by blast
  then have "decode_utf8 Ignore [104, 255, 105] = Inr [104, 105]" using c by simp
  then show ?thesis using c eval_exiting by simp
qed

text \<open>
  The claim as stated fails: the child writes the bytes \<open>68 FF 69\<close>; decoding with
  replacement gives \<open>h\<close>, U+FFFD, \<open>i\<close>, and \<open>run\<close> returns \<open>hi\<close>.
\<close>

theorem C3_replace_counterexample:
  "map_sum id stdout (run sandbox_host exiting_world a_request) = Inr [104, 105]
   \<and> decode_utf8 Replace (concat (stdout_saved_bytes (monitor sandbox_host exiting_world a_request)))
       = Inr [104, 65533, 105]"
proof -
  have c: "concat (stdout_saved_bytes (monitor sandbox_host exiting_world a_request)) = [104, 255, 105]"
    by code_simp
  have d: "decode_utf8 Replace [104, 255, 105] = Inr [104, 65533, 105]"
    by (simp add: decode_utf8_def utf8_seq_def is_continuation_def)
  show ?thesis using eval_exiting c d by simp
qed

subsection \<open>The shell flag\<close>

text \<open>
  Claim C9. Two calls that differ only in \<open>shell\<close> pass the same keyword arguments to
  \<open>Popen\<close>, with \<open>shell=False\<close>, run the same loop, send the same signal and return the
  same result.
\<close>

theorem C9_shell_ignored:
  "kw_shell (make_popen_kw h req) = False
   \<and> make_popen_kw h (req\<lparr>shell := b\<rparr>) = make_popen_kw h req
   \<and> monitor h w (req\<lparr>shell := b\<rparr>) = monitor h w req
   \<and> run_kill h w (req\<lparr>shell := b\<rparr>) = run_kill h w req
   \<and> run h w (req\<lparr>shell := b\<rparr>) = run h w req"
proof -
  have k: "make_popen_kw h (req\<lparr>shell := b\<rparr>) = make_popen_kw h req"
    by (simp add: make_popen_kw_def)
  have s: "kw_shell (make_popen_kw h req) = False"
    by (simp add: make_popen_kw_def Let_def)
  have m: "monitor h w (req\<lparr>shell := b\<rparr>) = monitor h w req"
    by (simp add: monitor_def Let_def)
  have g: "run_kill h w (req\<lparr>shell := b\<rparr>) = run_kill h w req"
    by (simp add: run_kill_def get_process_group_id_def k split: sum.split)
  have a: "assemble h w (req\<lparr>shell := b\<rparr>) c s = assemble h w req c s" for c s
    by (simp add: assemble_def Let_def split: option.split sum.split)
  have r: "run h w (req\<lparr>shell := b\<rparr>) = run h w req"
    by (simp add: run_def kills_own_group_def a m g split: sum.split)
  show ?thesis using k s m g r by simp
qed

subsection \<open>CPU accounting\<close>

lemma run_cpu_zero:
  assumes "run h w req = Inr r"
  shows "process_cpu_time r = 0 \<and> process_cpu_util r = 0"
proof -
  have z: "process_cpu_var (monitor h w req) = 0"
    by (simp add: monitor_loop poll_loop_cpu init_locals_def)
  have r0: "round2 0 = 0" by (simp add: round2_def)
  show ?thesis using assms z r0
    by (auto simp add: run_def assemble_def decode_ignore_total Let_def
        split: sum.splits option.splits if_splits)
qed

text \<open>
  Claim C1 at a call whose tree has used 310 ticks by the last sample, on a host with
  a sandbox identity, 100 ticks per second and 4 cores, while the system-wide counter advanced by 500: the
  claim gives a CPU time of 3.1 s and a utilisation of 248 percent; \<open>run\<close> returns 0
  for both, because \<open>process_cpu\<close> is set to 0 before the loop and \<open>cur_cpu\<close> is
  never added to it.
\<close>

theorem C1_cpu_never_accumulated:
  "cpu_sample sandbox_host exiting_world 0 = 250
   \<and> cpu_sample sandbox_host exiting_world 1 = 310
   \<and> get_system_cpu sandbox_host (proc_stat_end exiting_world)
       - get_system_cpu sandbox_host (proc_stat_start exiting_world) = 500
   \<and> round2 (cpu_sample sandbox_host exiting_world 1 / of_int (SC_CLK_TCK sandbox_host)) = 31 / 10
   \<and> round2 (cpu_sample sandbox_host exiting_world 1 / 500 * 100 * of_int (CPU_COUNT sandbox_host)) = 248
   \<and> map_sum id process_cpu_time (run sandbox_host exiting_world a_request) = Inr 0
   \<and> map_sum id process_cpu_util (run sandbox_host exiting_world a_request) = Inr 0"
  by code_simp

subsection \<open>Process groups\<close>

lemma run_kill_without_sandbox:
  assumes "SANDBOX_UID h = None" and "has_getpgid h" and "popen_outcome w = Inr pid"
  shows "kw_start_new_session (make_popen_kw h req) = False
       \<and> run_kill h w req = Some (Killpg (caller_pgid w))"
  using assms
  by (simp add: run_kill_def get_process_group_id_def os_getpgid_def reaper_def
      make_popen_kw_def Let_def)

lemma run_kill_with_sandbox:
  assumes "SANDBOX_UID h = Some uid" and "has_getpgid h" and "popen_outcome w = Inr pid"
  shows "kw_start_new_session (make_popen_kw h req) = True
       \<and> run_kill h w req = Some (Killpg pid)"
  using assms
  by (simp add: run_kill_def get_process_group_id_def os_getpgid_def reaper_def
      make_popen_kw_def Let_def)

lemma kills_own_group_without_sandbox:
  assumes "SANDBOX_UID h = None" and "has_getpgid h" and "popen_outcome w = Inr pid"
  shows "kills_own_group h w req \<and> run h w req = Inl KilledBySignal"
  using run_kill_without_sandbox [OF assms, of req] assms(3)
  by (simp add: kills_own_group_def run_def)

text \<open>
  Claim C2 on a Linux host with no sandbox identity: the child is started with
  neither \<open>start_new_session\<close> nor a creation flag, so it stays in the caller's
  process group; \<open>os.getpgid\<close> exists, so the group kill is sent, and its target is
  the caller's own group. With a sandbox identity the target is the child's own group,
  and on Windows, where a new group is created, the single process is killed.
\<close>

theorem C2_kills_callers_group:
  "SANDBOX_UID linux_host = None
   \<and> kw_start_new_session (make_popen_kw linux_host a_request) = False
   \<and> kw_creationflags (make_popen_kw linux_host a_request) = 0
   \<and> caller_pgid hanging_world = 77
   \<and> run_kill linux_host hanging_world a_request = Some (Killpg 77)
   \<and> run_kill sandbox_host hanging_world a_request = Some (Killpg 4242)
   \<and> kw_creationflags (make_popen_kw windows_host a_request) = CREATE_NEW_PROCESS_GROUP
   \<and> run_kill windows_host hanging_world a_request = Some (Kill 4242)"
  by code_simp

subsection \<open>Launch failure and the result record\<close>

lemma run_launch_failure:
  "popen_outcome w = Inl e \<Longrightarrow> run h w req = Inl (PopenError e) \<and> run_kill h w req = None"
  by (simp add: run_def run_kill_def)

lemma run_complete_record:
  assumes "popen_outcome w = Inr pid" and "1 \<le> timeout_seconds req" and "SC_CLK_TCK h \<noteq> 0"
    and "\<not> kills_own_group h w req"
  shows "\<exists>r. run h w req = Inr r \<and> cmd r = args req"
proof -
  from monitor_bound [OF assms(2)] obtain ec where "exit_code_var (monitor h w req) = Some ec"
    by blast
  from run_returns [OF assms(1) this assms(3) assms(4)] obtain r where r: "run h w req = Inr r"
    by blast
  from run_InrD [OF r] have "cmd r = args req" by blast
  with r show ?thesis by blast
qed

text \<open>
  Claim C8 at a call with \<open>timeout_seconds = 1\<close> on a Linux host with no sandbox
  identity, whose launch succeeds: the kill goes to process group 77, the caller's
  own, and the call ends there; it has not raised at launch and it returns no record.
  A failed launch is propagated, and the same call on the host with a sandbox
  identity returns its record.
\<close>

theorem C8_no_record_when_killed:
  "popen_outcome exiting_world = Inr 4242
   \<and> timeout_seconds a_request = 1
   \<and> SANDBOX_UID linux_host = None
   \<and> caller_pgid exiting_world = 77
   \<and> run_kill linux_host exiting_world a_request = Some (Killpg 77)
   \<and> run linux_host exiting_world a_request = Inl KilledBySignal
   \<and> run linux_host failing_world a_request = Inl (PopenError FileNotFoundError)
   \<and> map_sum id cmd (run sandbox_host exiting_world a_request) = Inr [''prog'']"
  by code_simp

end
